theory Spec2Isabelle
  imports Main "HOL-Library.Word" "HOL-Library.Sublist"
begin

section \<open>Strings of the host language\<close>

text \<open>
  A string of the source language is a sequence of 16-bit code units; \<open>includes\<close>,
  \<open>split\<close>, \<open>replace\<close> and a regular expression without the \<open>u\<close> flag all work on
  code units. Arabic letters are single code units (U+0600 to U+06FF).
\<close>

type_synonym unit16 = "16 word"
type_synonym ustring = "unit16 list"

definition ascii :: "string \<Rightarrow> ustring" where
  "ascii s = map of_char s"

text \<open>\<open>s.includes(pat)\<close>: \<open>pat\<close> occurs in \<open>s\<close> as a contiguous run of code units.\<close>

fun str_includes :: "ustring \<Rightarrow> ustring \<Rightarrow> bool" where
  "str_includes [] pat = (pat = [])"
| "str_includes (c # cs) pat = (prefix pat (c # cs) \<or> str_includes cs pat)"

text \<open>
  \<open>s.replace(/pat/g, rep)\<close> for a pattern that is a literal, non-empty run of code units:
  matches are found left to right and do not overlap.
\<close>

function replaceAll :: "ustring \<Rightarrow> ustring \<Rightarrow> ustring \<Rightarrow> ustring" where
  "replaceAll pat rep [] = []"
| "replaceAll pat rep (c # cs) =
     (if pat \<noteq> [] \<and> prefix pat (c # cs)
      then rep @ replaceAll pat rep (drop (length pat) (c # cs))
      else c # replaceAll pat rep cs)"
  by pat_completeness auto
termination
  by (relation "measure (\<lambda>(pat, rep, s). length s)") auto

text \<open>
  \<open>s.replace(/[class]/g, rep)\<close> for a character class: every code unit of the class is
  replaced by \<open>rep\<close>, every other one is kept.
\<close>

definition replaceClass :: "(unit16 \<Rightarrow> bool) \<Rightarrow> ustring \<Rightarrow> ustring \<Rightarrow> ustring" where
  "replaceClass P rep s = concat (map (\<lambda>c. if P c then rep else [c]) s)"

text \<open>\<open>s.split(sep)\<close> for a separator of one code unit; the result is never empty.\<close>

fun split :: "unit16 \<Rightarrow> ustring \<Rightarrow> ustring list" where
  "split sep [] = [[]]"
| "split sep (c # cs) =
     (if c = sep then [] # split sep cs
      else (case split sep cs of
              [] \<Rightarrow> [[c]]
            | seg # segs \<Rightarrow> (c # seg) # segs))"

text \<open>
  The white space that \<open>trim\<close> removes: the WhiteSpace and LineTerminator code points of
  the language standard.
\<close>

definition isLineTerminator :: "unit16 \<Rightarrow> bool" where
  "isLineTerminator c \<longleftrightarrow> c = 0x000A \<or> c = 0x000D \<or> c = 0x2028 \<or> c = 0x2029"

definition isWhiteSpace :: "unit16 \<Rightarrow> bool" where
  "isWhiteSpace c \<longleftrightarrow>
     c = 0x0009 \<or> c = 0x000B \<or> c = 0x000C \<or> c = 0x0020 \<or> c = 0x00A0 \<or> c = 0x1680 \<or>
     (0x2000 \<le> c \<and> c \<le> 0x200A) \<or> c = 0x202F \<or> c = 0x205F \<or> c = 0x3000 \<or> c = 0xFEFF \<or>
     isLineTerminator c"

definition trim :: "ustring \<Rightarrow> ustring" where
  "trim s = rev (dropWhile isWhiteSpace (rev (dropWhile isWhiteSpace s)))"

text \<open>\<open>xs.join(sep)\<close>.\<close>

fun join :: "ustring \<Rightarrow> ustring list \<Rightarrow> ustring" where
  "join sep [] = []"
| "join sep [x] = x"
| "join sep (x # y # ys) = x @ sep @ join sep (y # ys)"

text \<open>\<open>xs.findIndex(P)\<close>; the result \<open>-1\<close> of the source is \<open>None\<close>.\<close>

fun findIndex :: "('a \<Rightarrow> bool) \<Rightarrow> 'a list \<Rightarrow> nat option" where
  "findIndex P [] = None"
| "findIndex P (x # xs) =
     (if P x then Some 0 else map_option Suc (findIndex P xs))"

text \<open>\<open>xs.filter((_, i) => Q i)\<close>: a filter on the index, from index \<open>k\<close> on.\<close>

fun filterIndex :: "(nat \<Rightarrow> bool) \<Rightarrow> nat \<Rightarrow> 'a list \<Rightarrow> 'a list" where
  "filterIndex Q k [] = []"
| "filterIndex Q k (x # xs) =
     (if Q k then x # filterIndex Q (Suc k) xs else filterIndex Q (Suc k) xs)"

text \<open>
  \<open>toLowerCase\<close> is a built-in of the platform, with the case tables of Unicode behind
  it. The functions below take it as the parameter \<open>lc\<close>; \<open>lowerBasicLatin\<close> is its
  restriction to Basic Latin (A to Z), with which the built-in agrees on every string of
  Basic Latin and Arabic code units.
\<close>

definition lowerBasicLatin :: "ustring \<Rightarrow> ustring" where
  "lowerBasicLatin s = map (\<lambda>c. if 0x41 \<le> c \<and> c \<le> 0x5A then c + 0x20 else c) s"

section \<open>Text normalizer (PodcastPlayer.tsx, normalizeArabic)\<close>

definition isHamzaAlef :: "unit16 \<Rightarrow> bool" where
  "isHamzaAlef c \<longleftrightarrow> c = 0x0623 \<or> c = 0x0625 \<or> c = 0x0622"

definition isDiacritic :: "unit16 \<Rightarrow> bool" where
  "isDiacritic c \<longleftrightarrow> 0x064B \<le> c \<and> c \<le> 0x065F"

definition normalizeArabic :: "(ustring \<Rightarrow> ustring) \<Rightarrow> ustring \<Rightarrow> ustring" where
  "normalizeArabic lc s =
     lc (replaceClass isDiacritic []
          (replaceClass (\<lambda>c. c = 0x0649) [0x064A]
            (replaceClass (\<lambda>c. c = 0x0629) [0x0647]
              (replaceClass isHamzaAlef [0x0627] s))))"

text \<open>
  The five steps with their letters and marks written out, independently of the classes
  above: U+0623, U+0625 and U+0622 become U+0627; U+0629 becomes U+0647; U+0649 becomes
  U+064A; the marks U+064B to U+065F are removed; the case is lowered.
\<close>

definition mapLetter :: "(unit16 \<Rightarrow> bool) \<Rightarrow> unit16 \<Rightarrow> ustring \<Rightarrow> ustring" where
  "mapLetter P d s = map (\<lambda>c. if P c then d else c) s"

definition normalizeSteps :: "(ustring \<Rightarrow> ustring) \<Rightarrow> ustring \<Rightarrow> ustring" where
  "normalizeSteps lc s =
     (let s1 = mapLetter (\<lambda>c. c = 0x0623 \<or> c = 0x0625 \<or> c = 0x0622) 0x0627 s;
          s2 = mapLetter (\<lambda>c. c = 0x0629) 0x0647 s1;
          s3 = mapLetter (\<lambda>c. c = 0x0649) 0x064A s2;
          s4 = filter (\<lambda>c. \<not> (0x064B \<le> c \<and> c \<le> 0x065F)) s3
      in lc s4)"

text \<open>
  The combining marks of the Arabic block U+0600 to U+06FF (the code points of general
  category Mn): besides U+064B to U+065F these are the signs U+0610 to U+061A, the
  superscript alef U+0670 and the Koranic annotation marks from U+06D6 on. The steps as
  the specification words step 4, with all of these marks removed.
\<close>

definition isArabicCombiningMark :: "unit16 \<Rightarrow> bool" where
  "isArabicCombiningMark c \<longleftrightarrow>
     (0x0610 \<le> c \<and> c \<le> 0x061A) \<or> (0x064B \<le> c \<and> c \<le> 0x065F) \<or> c = 0x0670 \<or>
     (0x06D6 \<le> c \<and> c \<le> 0x06DC) \<or> (0x06DF \<le> c \<and> c \<le> 0x06E4) \<or>
     c = 0x06E7 \<or> c = 0x06E8 \<or> (0x06EA \<le> c \<and> c \<le> 0x06ED)"

definition normalizeAllMarks :: "(ustring \<Rightarrow> ustring) \<Rightarrow> ustring \<Rightarrow> ustring" where
  "normalizeAllMarks lc s =
     (let s1 = mapLetter (\<lambda>c. c = 0x0623 \<or> c = 0x0625 \<or> c = 0x0622) 0x0627 s;
          s2 = mapLetter (\<lambda>c. c = 0x0629) 0x0647 s1;
          s3 = mapLetter (\<lambda>c. c = 0x0649) 0x064A s2;
          s4 = filter (\<lambda>c. \<not> isArabicCombiningMark c) s3
      in lc s4)"

text \<open>A string that the four replacements leave alone.\<close>

definition plain :: "ustring \<Rightarrow> bool" where
  "plain s \<longleftrightarrow>
     list_all (\<lambda>c. \<not> isHamzaAlef c \<and> c \<noteq> 0x0629 \<and> c \<noteq> 0x0649 \<and> \<not> isDiacritic c) s"

section \<open>Title parser (getPodcastEpisodes, lines 38 to 72)\<close>

definition surahMarkerAr :: ustring where
  "surahMarkerAr = [0x0633, 0x0648, 0x0631, 0x0629]"

definition unknownReciterAr :: ustring where
  "unknownReciterAr =
     [0x0627, 0x0644, 0x0642, 0x0627, 0x0631, 0x0626, 0x0020,
      0x063A, 0x064A, 0x0631, 0x0020,
      0x0645, 0x0639, 0x0631, 0x0648, 0x0641]"

definition generalRecitations :: ustring where
  "generalRecitations =
     [0x062A, 0x0644, 0x0627, 0x0648, 0x0627, 0x062A, 0x0020,
      0x0639, 0x0627, 0x0645, 0x0629]"

definition titleParts :: "ustring \<Rightarrow> ustring list" where
  "titleParts fullTitle =
     map trim (split 0x7C (replaceAll (ascii '' - '') (ascii '' | '') fullTitle))"

definition arabicSurahIndex :: "ustring list \<Rightarrow> nat option" where
  "arabicSurahIndex parts = findIndex (\<lambda>p. str_includes p surahMarkerAr) parts"

definition englishSurahIndex :: "(ustring \<Rightarrow> ustring) \<Rightarrow> ustring list \<Rightarrow> nat option" where
  "englishSurahIndex lc parts = findIndex (\<lambda>p. str_includes (lc p) (ascii ''surah'')) parts"

text \<open>Lines 45 to 63: the chapter label and the reciter label from the two markers.\<close>

definition markerLabels :: "(ustring \<Rightarrow> ustring) \<Rightarrow> ustring list \<Rightarrow> ustring \<times> ustring" where
  "markerLabels lc parts =
     (let a = arabicSurahIndex parts;
          surah0 = (case a of None \<Rightarrow> [] | Some i \<Rightarrow> parts ! i);
          e = englishSurahIndex lc parts;
          surah = (case e of
                     None \<Rightarrow> surah0
                   | Some j \<Rightarrow> if surah0 = [] then parts ! j else surah0);
          reciterParts = filterIndex (\<lambda>i. Some i \<noteq> a \<and> Some i \<noteq> e) 0 parts
      in (surah, trim (join (ascii '' '') reciterParts)))"

text \<open>Lines 65 to 68: the fallback when no chapter label was found.\<close>

definition fallbackLabels :: "ustring list \<Rightarrow> ustring \<times> ustring \<Rightarrow> ustring \<times> ustring" where
  "fallbackLabels parts sr =
     (if fst sr = [] \<and> 0 < length parts
      then (parts ! 0, join (ascii '' '') (drop 1 parts))
      else sr)"

text \<open>Lines 70 to 72: the sentinel for a missing or unknown reciter.\<close>

definition sentinelReciter :: "ustring \<Rightarrow> ustring" where
  "sentinelReciter reciter =
     (if reciter = [] \<or> reciter = unknownReciterAr \<or> reciter = ascii ''Unknown''
      then generalRecitations else reciter)"

definition labelsBeforeSentinel :: "(ustring \<Rightarrow> ustring) \<Rightarrow> ustring \<Rightarrow> ustring \<times> ustring" where
  "labelsBeforeSentinel lc fullTitle =
     (let parts = titleParts fullTitle in fallbackLabels parts (markerLabels lc parts))"

definition parseTitle :: "(ustring \<Rightarrow> ustring) \<Rightarrow> ustring \<Rightarrow> ustring \<times> ustring" where
  "parseTitle lc fullTitle =
     (let sr = labelsBeforeSentinel lc fullTitle in (fst sr, sentinelReciter (snd sr)))"

section \<open>Feed extractor (getPodcastEpisodes)\<close>

record Episode =
  idE :: ustring
  title :: ustring
  reciter :: ustring
  surah :: ustring
  url :: ustring
  imageE :: ustring
  duration :: ustring

text \<open>
  The lazy group \<open>(.*?)\<close> followed by the literal \<open>post\<close>: the shortest run of code
  units, none of them a line terminator, after which \<open>post\<close> stands.
\<close>

fun lazyUntil :: "ustring \<Rightarrow> ustring \<Rightarrow> ustring option" where
  "lazyUntil post [] = (if post = [] then Some [] else None)"
| "lazyUntil post (c # cs) =
     (if prefix post (c # cs) then Some []
      else if isLineTerminator c then None
      else map_option ((#) c) (lazyUntil post cs))"

text \<open>
  \<open>s.match(/pre...rest/)\<close>, first group: the leftmost position where the literal \<open>pre\<close>
  stands and the rest of the pattern, \<open>k\<close>, matches behind it.
\<close>

fun matchGroup :: "ustring \<Rightarrow> (ustring \<Rightarrow> ustring option) \<Rightarrow> ustring \<Rightarrow> ustring option" where
  "matchGroup pre k [] = (if pre = [] then k [] else None)"
| "matchGroup pre k (c # cs) =
     (case (if prefix pre (c # cs) then k (drop (length pre) (c # cs)) else None) of
        Some cap \<Rightarrow> Some cap
      | None \<Rightarrow> matchGroup pre k cs)"

text \<open>
  The tail \<open>.*?>(.*?)<\/guid>\<close> of the guid pattern: the first lazy run is extended
  only while the rest fails behind it.
\<close>

fun guidTail :: "ustring \<Rightarrow> ustring option" where
  "guidTail [] = None"
| "guidTail (c # cs) =
     (case (if c = 0x3E then lazyUntil (ascii ''</guid>'') cs else None) of
        Some cap \<Rightarrow> Some cap
      | None \<Rightarrow> if isLineTerminator c then None else guidTail cs)"

text \<open>
  The group \<open>([\s\S]*?)\<close> followed by the literal \<open>post\<close>: any code units up to the
  first place where \<open>post\<close> stands; the result is the group and the text behind the match.
\<close>

fun anyUntil :: "ustring \<Rightarrow> ustring \<Rightarrow> (ustring \<times> ustring) option" where
  "anyUntil post [] = (if post = [] then Some ([], []) else None)"
| "anyUntil post (c # cs) =
     (if prefix post (c # cs) then Some ([], drop (length post) (c # cs))
      else map_option (\<lambda>(cap, r). (c # cap, r)) (anyUntil post cs))"

text \<open>
  One \<open>itemRegex.exec\<close> on the text from \<open>lastIndex\<close> on: the content of the next item
  and the text behind its closing tag, or \<open>None\<close> for \<open>null\<close>.
\<close>

fun execItem :: "ustring \<Rightarrow> (ustring \<times> ustring) option" where
  "execItem [] = None"
| "execItem (c # cs) =
     (case (if prefix (ascii ''<item>'') (c # cs)
            then anyUntil (ascii ''</item>'') (drop 6 (c # cs)) else None) of
        Some r \<Rightarrow> Some r
      | None \<Rightarrow> execItem cs)"

definition dquote :: ustring where
  "dquote = [0x22]"

definition fullTitleOf :: "ustring \<Rightarrow> ustring" where
  "fullTitleOf content =
     (case (case matchGroup (ascii ''<title><![CDATA['') (lazyUntil (ascii '']]></title>'')) content of
              Some t \<Rightarrow> Some t
            | None \<Rightarrow> matchGroup (ascii ''<title>'') (lazyUntil (ascii ''</title>'')) content) of
        Some t \<Rightarrow> t
      | None \<Rightarrow> ascii ''Unknown Title'')"

definition enclosureUrl :: "ustring \<Rightarrow> ustring" where
  "enclosureUrl content =
     (case matchGroup (ascii ''<enclosure url='' @ dquote) (lazyUntil dquote) content of
        Some u \<Rightarrow> u | None \<Rightarrow> [])"

definition itunesImage :: "ustring \<Rightarrow> ustring option" where
  "itunesImage s = matchGroup (ascii ''<itunes:image href='' @ dquote) (lazyUntil dquote) s"

definition durationOf :: "ustring \<Rightarrow> ustring" where
  "durationOf content =
     (case matchGroup (ascii ''<itunes:duration>'') (lazyUntil (ascii ''</itunes:duration>'')) content of
        Some d \<Rightarrow> d | None \<Rightarrow> ascii ''00:00'')"

text \<open>
  The body of the loop for one item. \<open>Math.random().toString()\<close> is the \<open>k\<close>-th value
  of a supply \<open>rnd\<close>; it is drawn only when the item has no guid, and \<open>k\<close> counts the
  draws.
\<close>

definition episodeOf ::
  "(ustring \<Rightarrow> ustring) \<Rightarrow> ustring \<Rightarrow> (nat \<Rightarrow> ustring) \<Rightarrow> nat \<Rightarrow> ustring \<Rightarrow> Episode \<times> nat" where
  "episodeOf lc channelImage rnd k content =
     (let fullTitle = fullTitleOf content;
          sr = parseTitle lc fullTitle;
          u = enclosureUrl content;
          ik = (case matchGroup (ascii ''<guid'') guidTail content of
                  Some g \<Rightarrow> (g, k)
                | None \<Rightarrow> (rnd k, Suc k));
          img = (case itunesImage content of Some i \<Rightarrow> i | None \<Rightarrow> channelImage)
      in (\<lparr>idE = fst ik, title = fullTitle, reciter = snd sr, surah = fst sr, url = u,
            imageE = img, duration = durationOf content\<rparr>, snd ik))"

lemma anyUntil_shorter: "anyUntil post s = Some (cap, r) \<Longrightarrow> length r \<le> length s"
  by (induction s arbitrary: cap) (auto split: if_splits)

lemma execItem_shorter: "execItem s = Some (content, r) \<Longrightarrow> length r < length s"
proof (induction s)
  case Nil
  then show ?case by simp
next
  case (Cons c cs)
  show ?case
  proof (cases "prefix (ascii ''<item>'') (c # cs)")
    case False
    with Cons show ?thesis by (auto split: option.splits)
  next
    case True
    show ?thesis
    proof (cases "anyUntil (ascii ''</item>'') (drop 6 (c # cs))")
      case None
      with True Cons show ?thesis by (auto split: option.splits)
    next
      case (Some a)
      with True Cons.prems have "anyUntil (ascii ''</item>'') (drop 6 (c # cs)) = Some (content, r)"
        by simp
      from anyUntil_shorter [OF this] show ?thesis by simp
    qed
  qed
qed

text \<open>The contents of all items of a feed text, in the order of the \<open>exec\<close> loop.\<close>

function itemContents :: "ustring \<Rightarrow> ustring list" where
  "itemContents s =
     (case execItem s of
        None \<Rightarrow> []
      | Some (content, r) \<Rightarrow> content # itemContents r)"
  by pat_completeness auto
termination
  by (relation "measure length") (auto dest: execItem_shorter)

declare itemContents.simps [simp del]

text \<open>
  The \<open>while\<close> loop: \<open>s\<close> is the text from \<open>lastIndex\<close> on, \<open>items\<close> the array built
  so far, \<open>k\<close> the number of random values drawn.
\<close>

function itemsLoop ::
  "(ustring \<Rightarrow> ustring) \<Rightarrow> ustring \<Rightarrow> (nat \<Rightarrow> ustring) \<Rightarrow> ustring \<Rightarrow> Episode list \<Rightarrow> nat
     \<Rightarrow> Episode list" where
  "itemsLoop lc channelImage rnd s items k =
     (case execItem s of
        None \<Rightarrow> items
      | Some (content, r) \<Rightarrow>
          (let ek = episodeOf lc channelImage rnd k content
           in itemsLoop lc channelImage rnd r
                (if url (fst ek) \<noteq> [] then items @ [fst ek] else items) (snd ek)))"
  by pat_completeness auto
termination
  by (relation "measure (\<lambda>(lc, channelImage, rnd, s, items, k). length s)")
     (auto dest: execItem_shorter)

declare itemsLoop.simps [simp del]

definition extractEpisodes :: "(ustring \<Rightarrow> ustring) \<Rightarrow> (nat \<Rightarrow> ustring) \<Rightarrow> ustring \<Rightarrow> Episode list" where
  "extractEpisodes lc rnd xmlText =
     (let channelImage = (case itunesImage xmlText of Some i \<Rightarrow> i | None \<Rightarrow> [])
      in itemsLoop lc channelImage rnd xmlText [] 0)"

text \<open>
  What \<open>fetch\<close> hands back: a rejected promise, or a response with its \<open>ok\<close> flag and
  its body (\<open>None\<close> when reading the body fails).
\<close>

datatype fetched = FetchRejected | Response bool "ustring option"

datatype error = NetworkError | FailedToFetchRSS | BodyError

text \<open>The \<open>try\<close> block: \<open>Inl\<close> is a thrown error.\<close>

definition tryBlock ::
  "(ustring \<Rightarrow> ustring) \<Rightarrow> (nat \<Rightarrow> ustring) \<Rightarrow> fetched \<Rightarrow> error + Episode list" where
  "tryBlock lc rnd res =
     (case res of
        FetchRejected \<Rightarrow> Inl NetworkError
      | Response ok body \<Rightarrow>
          if \<not> ok then Inl FailedToFetchRSS
          else (case body of
                  None \<Rightarrow> Inl BodyError
                | Some xmlText \<Rightarrow> Inr (extractEpisodes lc rnd xmlText)))"

text \<open>The whole function, with its \<open>catch\<close>: \<open>Inl\<close> would be an error raised to the caller.\<close>

definition getPodcastEpisodes ::
  "(ustring \<Rightarrow> ustring) \<Rightarrow> (nat \<Rightarrow> ustring) \<Rightarrow> fetched \<Rightarrow> error + Episode list" where
  "getPodcastEpisodes lc rnd res =
     (case tryBlock lc rnd res of
        Inl err \<Rightarrow> Inr []
      | Inr items \<Rightarrow> Inr items)"

section \<open>Episode filter (PodcastPlayer.tsx, filteredEpisodes)\<close>

text \<open>
  Arrays are objects: a variable holds the address of an array, and \<open>sort\<close> works in
  place. The store lists the arrays of episodes by address; \<open>filter\<close> allocates a new one.
\<close>

type_synonym store = "Episode list list"

definition newArray :: "store \<Rightarrow> Episode list \<Rightarrow> nat \<times> store" where
  "newArray h xs = (length h, h @ [xs])"

definition queryTerms :: "(ustring \<Rightarrow> ustring) \<Rightarrow> ustring \<Rightarrow> ustring list" where
  "queryTerms lc surahSearch =
     filter (\<lambda>t. 0 < length t) (split 0x20 (normalizeArabic lc surahSearch))"

definition matchesTerms :: "(ustring \<Rightarrow> ustring) \<Rightarrow> ustring list \<Rightarrow> Episode \<Rightarrow> bool" where
  "matchesTerms lc terms e =
     (let combined = normalizeArabic lc (surah e) @ ascii '' '' @ normalizeArabic lc (reciter e)
      in list_all (\<lambda>t. str_includes combined t) terms)"

text \<open>
  \<open>getSurahOrder\<close> is imported from a module outside the sources at hand; it is the
  parameter \<open>ord\<close>. The comparison \<open>orderA - orderB\<close> under the stable \<open>sort\<close> of the
  platform is a stable sort on that key.
\<close>

definition filteredEpisodes ::
  "(ustring \<Rightarrow> ustring) \<Rightarrow> (ustring \<Rightarrow> int) \<Rightarrow> ustring \<Rightarrow> ustring \<Rightarrow> store \<Rightarrow> nat \<Rightarrow> nat \<times> store" where
  "filteredEpisodes lc ord selectedReciter surahSearch h episodes =
     (let r1 = (if selectedReciter \<noteq> ascii ''All''
                then newArray h (filter (\<lambda>e. reciter e = selectedReciter) (h ! episodes))
                else (episodes, h));
          r2 = (if surahSearch \<noteq> []
                then newArray (snd r1)
                       (filter (matchesTerms lc (queryTerms lc surahSearch)) (snd r1 ! fst r1))
                else r1)
      in (fst r2, (snd r2)[fst r2 := sort_key (\<lambda>e. ord (surah e)) (snd r2 ! fst r2)]))"

section \<open>Auxiliary notions for the properties\<close>

text \<open>The four \<open>replace\<close> calls of \<open>normalizeArabic\<close>, before the lowering of case.\<close>

definition replacements :: "ustring \<Rightarrow> ustring" where
  "replacements s =
     replaceClass isDiacritic []
       (replaceClass (\<lambda>c. c = 0x0649) [0x064A]
         (replaceClass (\<lambda>c. c = 0x0629) [0x0647]
           (replaceClass isHamzaAlef [0x0627] s)))"

text \<open>The name Ahmad, written with alef and hamza above, and with a bare alef.\<close>

definition ahmadHamza :: ustring where
  "ahmadHamza = [0x0623, 0x062D, 0x0645, 0x062F]"

definition ahmadBare :: ustring where
  "ahmadBare = [0x0627, 0x062D, 0x0645, 0x062F]"

text \<open>The channel image of a feed text, and the episode of an item with its id left aside.\<close>

definition channelImageOf :: "ustring \<Rightarrow> ustring" where
  "channelImageOf xmlText = (case itunesImage xmlText of Some i \<Rightarrow> i | None \<Rightarrow> [])"

definition itemFields :: "(ustring \<Rightarrow> ustring) \<Rightarrow> ustring \<Rightarrow> ustring \<Rightarrow> Episode" where
  "itemFields lc channelImage content =
     \<lparr>idE = [], title = fullTitleOf content,
      reciter = snd (parseTitle lc (fullTitleOf content)),
      surah = fst (parseTitle lc (fullTitleOf content)),
      url = enclosureUrl content,
      imageE = (case itunesImage content of Some i \<Rightarrow> i | None \<Rightarrow> channelImage),
      duration = durationOf content\<rparr>"

text \<open>
  Sample inputs: a supply of random strings, a feed of two items of which the first has
  no enclosure and the second names its reciter \<open>Unknown\<close>, and a feed without items.
\<close>

definition sampleRandom :: "nat \<Rightarrow> ustring" where
  "sampleRandom k = ascii ''0.'' @ replicate (Suc k) 0x37"

definition itemNoEnclosure :: ustring where
  "itemNoEnclosure = ascii ''<title>abc | def</title>''"

definition itemUnknown :: ustring where
  "itemUnknown =
     ascii ''<title>Surah Y | Unknown</title><enclosure url='' @ dquote @ ascii ''u.mp3'' @
     dquote @ ascii ''/>''"

definition feedTwoItems :: ustring where
  "feedTwoItems =
     ascii ''<item>'' @ itemNoEnclosure @ ascii ''</item>'' @
     ascii ''<item>'' @ itemUnknown @ ascii ''</item>''"

definition episodeUnknown :: Episode where
  "episodeUnknown =
     \<lparr>idE = ascii ''0.77'', title = ascii ''Surah Y | Unknown'', reciter = generalRecitations,
      surah = ascii ''Surah Y'', url = ascii ''u.mp3'', imageE = [], duration = ascii ''00:00''\<rparr>"

definition feedNoItems :: ustring where
  "feedNoItems = ascii ''<rss><channel><title>x</title></channel></rss>''"

text \<open>
  The labels as steps 2 to 4 of the specification word them: the chapter label is the
  first segment with the Arabic marker, or else the first segment whose lower-case form
  has the English marker; the reciter label joins, with single spaces and in order, the
  segments whose index is neither of the two marker indices, and is then trimmed.
\<close>

definition surahByMarkers :: "(ustring \<Rightarrow> ustring) \<Rightarrow> ustring list \<Rightarrow> ustring option" where
  "surahByMarkers lc parts =
     (case find (\<lambda>p. str_includes p surahMarkerAr) parts of
        Some seg \<Rightarrow> Some seg
      | None \<Rightarrow> find (\<lambda>p. str_includes (lc p) (ascii ''surah'')) parts)"

definition reciterByMarkers :: "(ustring \<Rightarrow> ustring) \<Rightarrow> ustring list \<Rightarrow> ustring" where
  "reciterByMarkers lc parts =
     trim (join (ascii '' '')
       (map (\<lambda>i. parts ! i)
          (filter (\<lambda>i. Some i \<noteq> arabicSurahIndex parts \<and> Some i \<noteq> englishSurahIndex lc parts)
             [0..<length parts])))"

text \<open>
  The terms of a query: the runs between separators that are not empty, with the space
  U+0020 as the only separator, and with every white space code unit as a separator.
\<close>

fun splitWhere :: "(unit16 \<Rightarrow> bool) \<Rightarrow> ustring \<Rightarrow> ustring list" where
  "splitWhere P [] = [[]]"
| "splitWhere P (c # cs) =
     (if P c then [] # splitWhere P cs
      else (case splitWhere P cs of
              [] \<Rightarrow> [[c]]
            | seg # segs \<Rightarrow> (c # seg) # segs))"

definition spaceTerms :: "ustring \<Rightarrow> ustring list" where
  "spaceTerms s = filter (\<lambda>t. t \<noteq> []) (splitWhere (\<lambda>c. c = 0x20) s)"

definition whitespaceTerms :: "ustring \<Rightarrow> ustring list" where
  "whitespaceTerms s = filter (\<lambda>t. t \<noteq> []) (splitWhere isWhiteSpace s)"

text \<open>
  Every term occurs, as a contiguous run, in the normal form of the chapter label, a
  space and the reciter.
\<close>

definition hasAllTerms :: "(ustring \<Rightarrow> ustring) \<Rightarrow> ustring list \<Rightarrow> Episode \<Rightarrow> bool" where
  "hasAllTerms lc terms e =
     list_all (\<lambda>t. sublist t (normalizeArabic lc (surah e @ ascii '' '' @ reciter e))) terms"

text \<open>The criterion with the terms split at white space, and with the terms split at spaces.\<close>

definition keptAsStated :: "(ustring \<Rightarrow> ustring) \<Rightarrow> ustring \<Rightarrow> Episode \<Rightarrow> bool" where
  "keptAsStated lc query e = hasAllTerms lc (whitespaceTerms (normalizeArabic lc query)) e"

definition keptBySpaceTerms :: "(ustring \<Rightarrow> ustring) \<Rightarrow> ustring \<Rightarrow> Episode \<Rightarrow> bool" where
  "keptBySpaceTerms lc query e = hasAllTerms lc (spaceTerms (normalizeArabic lc query)) e"

text \<open>The episodes left by the reciter selection.\<close>

definition selectedEpisodes :: "ustring \<Rightarrow> Episode list \<Rightarrow> Episode list" where
  "selectedEpisodes selectedReciter eps =
     (if selectedReciter = ascii ''All'' then eps
      else filter (\<lambda>e. reciter e = selectedReciter) eps)"

text \<open>Sample inputs: the names of the first two chapters, with the Arabic marker in front.\<close>

definition surahFatiha :: ustring where
  "surahFatiha = surahMarkerAr @ [0x0020, 0x0627, 0x0644, 0x0641, 0x0627, 0x062A, 0x062D, 0x0629]"

definition surahBaqarah :: ustring where
  "surahBaqarah = surahMarkerAr @ [0x0020, 0x0627, 0x0644, 0x0628, 0x0642, 0x0631, 0x0629]"

text \<open>
  Modelled from the spec: the table behind \<open>getSurahOrder\<close> (module utils/surahOrder, not
  among the sources), for the first two chapters. A name has its canonical sequence number
  as rank, and a name that is not in the table has a large sentinel rank.
\<close>

definition twoSurahOrder :: "ustring \<Rightarrow> int" where
  "twoSurahOrder name =
     (if name = surahFatiha then 1 else if name = surahBaqarah then 2 else 999)"

definition episodeBaqarah :: Episode where
  "episodeBaqarah =
     \<lparr>idE = ascii ''g1'', title = surahBaqarah, reciter = generalRecitations, surah = surahBaqarah,
      url = ascii ''1.mp3'', imageE = [], duration = ascii ''00:00''\<rparr>"

definition episodeFatiha :: Episode where
  "episodeFatiha =
     \<lparr>idE = ascii ''g2'', title = surahFatiha, reciter = generalRecitations, surah = surahFatiha,
      url = ascii ''2.mp3'', imageE = [], duration = ascii ''00:00''\<rparr>"

text \<open>A query with a tab between two letters, and an episode that has both letters.\<close>

definition tabQuery :: ustring where
  "tabQuery = [0x61, 0x09, 0x62]"

definition episodeAb :: Episode where
  "episodeAb =
     \<lparr>idE = ascii ''g3'', title = ascii ''ab | x'', reciter = ascii ''x'', surah = ascii ''ab'',
      url = ascii ''3.mp3'', imageE = [], duration = ascii ''00:00''\<rparr>"


text \<open>The query of the test in the specification: the name of the second chapter, without article.\<close>

definition baqarahQuery :: ustring where
  "baqarahQuery = [0x0628, 0x0642, 0x0631, 0x0629]"

section \<open>Properties of the string operations\<close>

text \<open>
  \<open>findIndex\<close> gives the first index at which the predicate holds, and \<open>None\<close> when it
  holds nowhere; \<open>filterIndex\<close> keeps the elements at the indices that pass.
\<close>

lemma findIndex_None_iff: "findIndex P xs = None \<longleftrightarrow> (\<forall>x\<in>set xs. \<not> P x)"
  by (induction xs) auto

lemma findIndex_Some_first:
  "findIndex P xs = Some i \<Longrightarrow> i < length xs \<and> P (xs ! i) \<and> (\<forall>j<i. \<not> P (xs ! j))"
proof (induction xs arbitrary: i)
  case Nil
  then show ?case by simp
next
  case (Cons x xs)
  show ?case
  proof (cases "P x")
    case True
    with Cons.prems show ?thesis by simp
  next
    case False
    with Cons.prems obtain k where k: "findIndex P xs = Some k" "i = Suc k"
      by auto
    from Cons.IH [OF k(1)] False k(2) show ?thesis
      by (auto simp: less_Suc_eq_0_disj)
  qed
qed

lemma find_findIndex: "find P xs = map_option (\<lambda>i. xs ! i) (findIndex P xs)"
  by (induction xs) (auto simp: option.map_comp comp_def)

lemma filterIndex_nths:
  "filterIndex Q k xs = map (\<lambda>i. xs ! i) (filter (\<lambda>i. Q (k + i)) [0..<length xs])"
proof (induction xs arbitrary: k)
  case Nil
  then show ?case by simp
next
  case (Cons x xs)
  have "[0..<length (x # xs)] = 0 # map Suc [0..<length xs]"
    by (simp add: upt_conv_Cons map_Suc_upt del: upt_Suc)
  then show ?case
    by (simp add: Cons.IH filter_map comp_def del: upt_Suc)
qed

lemma split_no_sep: "sep \<notin> set s \<Longrightarrow> split sep s = [s]"
  by (induction s) auto

lemma replaceAll_absent: "\<not> str_includes s pat \<Longrightarrow> replaceAll pat rep s = s"
  by (induction s) auto

section \<open>Properties of the title parser\<close>

lemma titleParts_single:
  "0x7C \<notin> set t \<Longrightarrow> \<not> str_includes t (ascii '' - '') \<Longrightarrow> titleParts t = [trim t]"
  by (simp add: titleParts_def replaceAll_absent split_no_sep)

lemma labels_single_part: "fallbackLabels [p] (markerLabels lc [p]) = (p, [])"
  by (auto simp: fallbackLabels_def markerLabels_def arabicSurahIndex_def englishSurahIndex_def
      Let_def trim_def split: option.splits)

lemma sentinelReciter_Nil: "sentinelReciter [] = generalRecitations"
  by (simp add: sentinelReciter_def)

lemma unknownReciterAr_single:
  "0x7C \<notin> set unknownReciterAr \<and> \<not> str_includes unknownReciterAr (ascii '' - '')"
  by (simp add: unknownReciterAr_def ascii_def)

lemma trim_unknownReciterAr: "trim unknownReciterAr = unknownReciterAr"
  by (simp add: unknownReciterAr_def trim_def isWhiteSpace_def isLineTerminator_def)

text \<open>
  Claim C9. A title without the code unit \<open>|\<close> and without the run space, hyphen, space
  is a single segment: the parser returns the trimmed title as the chapter label and the
  sentinel as the reciter. In particular the title that is the Arabic "unknown reciter"
  literal gets the sentinel as its reciter.
\<close>

theorem single_segment_title:
  "(0x7C \<notin> set t \<and> \<not> str_includes t (ascii '' - '')
      \<longrightarrow> parseTitle lc t = (trim t, generalRecitations)) \<and>
   parseTitle lc unknownReciterAr = (unknownReciterAr, generalRecitations)"
proof -
  have one: "parseTitle lc u = (trim u, generalRecitations)"
    if "0x7C \<notin> set u" and "\<not> str_includes u (ascii '' - '')" for u
    using that
    by (simp add: parseTitle_def labelsBeforeSentinel_def titleParts_single
        labels_single_part sentinelReciter_Nil)
  from one [of unknownReciterAr] unknownReciterAr_single
  have "parseTitle lc unknownReciterAr = (unknownReciterAr, generalRecitations)"
    by (simp add: trim_unknownReciterAr)
  with one [of t] show ?thesis by blast
qed

theorem single_segment_title_witness:
  "0x7C \<notin> set (ascii ''Al-Fatiha '') \<and> \<not> str_includes (ascii ''Al-Fatiha '') (ascii '' - '') \<and>
   parseTitle lowerBasicLatin (ascii ''Al-Fatiha '') = (ascii ''Al-Fatiha'', generalRecitations)"
proof -
  have h: "0x7C \<notin> set (ascii ''Al-Fatiha '') \<and> \<not> str_includes (ascii ''Al-Fatiha '') (ascii '' - '')"
    by (simp add: ascii_def)
  have t: "trim (ascii ''Al-Fatiha '') = ascii ''Al-Fatiha''"
    by (simp add: ascii_def trim_def isWhiteSpace_def isLineTerminator_def)
  from single_segment_title [of "ascii ''Al-Fatiha ''" lowerBasicLatin] h
  have "parseTitle lowerBasicLatin (ascii ''Al-Fatiha '') = (trim (ascii ''Al-Fatiha ''), generalRecitations)"
    by blast
  with h t show ?thesis by simp
qed

text \<open>
  Claim C10. The title \<open>abc | | \<close> has the segments \<open>abc\<close>, empty, empty and no
  chapter marker. The fallback joins the two empty segments with a space and does not
  trim: the reciter label is one space. It is neither empty nor an "unknown" literal, so
  the parser returns it and not the sentinel, although trimming it would leave nothing.
\<close>

theorem whitespace_reciter_kept:
  assumes "lc [] = []" and "lc (ascii ''abc'') = ascii ''abc''"
  shows "titleParts (ascii ''abc | | '') = [ascii ''abc'', [], []] \<and>
         arabicSurahIndex (titleParts (ascii ''abc | | '')) = None \<and>
         englishSurahIndex lc (titleParts (ascii ''abc | | '')) = None \<and>
         labelsBeforeSentinel lc (ascii ''abc | | '') = (ascii ''abc'', ascii '' '') \<and>
         parseTitle lc (ascii ''abc | | '') = (ascii ''abc'', ascii '' '') \<and>
         trim (ascii '' '') = [] \<and> ascii '' '' \<noteq> generalRecitations"
  using assms
  by (simp add: parseTitle_def labelsBeforeSentinel_def titleParts_def ascii_def markerLabels_def
      fallbackLabels_def sentinelReciter_def arabicSurahIndex_def englishSurahIndex_def trim_def
      isWhiteSpace_def isLineTerminator_def surahMarkerAr_def unknownReciterAr_def
      generalRecitations_def Let_def)

theorem whitespace_reciter_kept_witness:
  "lowerBasicLatin [] = [] \<and> lowerBasicLatin (ascii ''abc'') = ascii ''abc'' \<and>
   parseTitle lowerBasicLatin (ascii ''abc | | '') = (ascii ''abc'', ascii '' '')"
proof -
  have h1: "lowerBasicLatin [] = []"
    by (simp add: lowerBasicLatin_def)
  have h2: "lowerBasicLatin (ascii ''abc'') = ascii ''abc''"
    by (simp add: lowerBasicLatin_def ascii_def)
  from whitespace_reciter_kept [OF h1 h2] h1 h2 show ?thesis by blast
qed

section \<open>Properties of the text normalizer\<close>

lemma replaceClass_single: "replaceClass P [d] s = mapLetter P d s"
  by (induction s) (auto simp: replaceClass_def mapLetter_def)

lemma replaceClass_empty: "replaceClass P [] s = filter (\<lambda>c. \<not> P c) s"
  by (induction s) (auto simp: replaceClass_def)

text \<open>
  Claim C7, as amended. The normalizer is the composition, in this order, of: the letters
  U+0623, U+0625, U+0622 mapped to U+0627; U+0629 mapped to U+0647; U+0649 mapped to
  U+064A; the marks U+064B to U+065F removed, and no other mark; the case lowered.
\<close>

theorem normalize_steps: "normalizeArabic lc s = normalizeSteps lc s"
proof -
  have hamza: "isHamzaAlef = (\<lambda>c. c = 0x0623 \<or> c = 0x0625 \<or> c = 0x0622)"
    by (simp add: fun_eq_iff isHamzaAlef_def)
  have marks: "(\<lambda>c. \<not> isDiacritic c) = (\<lambda>c. \<not> (0x064B \<le> c \<and> c \<le> 0x065F))"
    by (simp add: fun_eq_iff isDiacritic_def)
  show ?thesis
    by (simp add: normalizeArabic_def normalizeSteps_def replaceClass_single replaceClass_empty
        hamza marks)
qed

text \<open>
  The letter beh followed by the superscript alef U+0670, a combining mark of the Arabic
  block. Claim C7 as stated removes all such marks and leaves the beh alone; the
  normalizer removes only U+064B to U+065F and returns both code units.
\<close>

theorem superscript_alef_counterexample:
  "isArabicCombiningMark 0x0670 \<and>
   normalizeAllMarks lowerBasicLatin [0x0628, 0x0670] = [0x0628] \<and>
   normalizeArabic lowerBasicLatin [0x0628, 0x0670] = [0x0628, 0x0670]"
  by (simp add: isArabicCombiningMark_def normalizeAllMarks_def mapLetter_def normalizeArabic_def
      replaceClass_def isHamzaAlef_def isDiacritic_def lowerBasicLatin_def)

lemma plain_replacements_id: "plain s \<Longrightarrow> replacements s = s"
  by (induction s) (auto simp: plain_def replacements_def replaceClass_def)

lemma plain_replacements: "plain (replacements s)"
  by (induction s) (auto simp: plain_def replacements_def replaceClass_def isHamzaAlef_def isDiacritic_def)

lemma unat_lower_unit:
  fixes c :: unit16
  assumes "c \<le> 0x5A"
  shows "unat (c + 0x20) = unat c + 32"
proof -
  from assms have "unat c \<le> 90"
    by (simp add: word_le_nat_alt)
  then show ?thesis
    by (simp add: unat_word_ariths)
qed

lemma lower_unit_range:
  fixes c :: unit16
  assumes "0x41 \<le> c" and "c \<le> 0x5A"
  shows "0x61 \<le> c + 0x20 \<and> c + 0x20 \<le> 0x7A"
  using assms unat_lower_unit [OF assms(2)]
  by (simp add: word_le_nat_alt)

lemma small_unit_plain:
  fixes d :: unit16
  assumes "d \<le> 0x7A"
  shows "\<not> isHamzaAlef d \<and> d \<noteq> 0x0629 \<and> d \<noteq> 0x0649 \<and> \<not> isDiacritic d \<and> \<not> (0x41 \<le> d \<and> d \<le> 0x5A \<and> 0x61 \<le> d)"
  using assms
  by (auto simp: isHamzaAlef_def isDiacritic_def word_le_nat_alt)

lemma lowerBasicLatin_idem: "lowerBasicLatin (lowerBasicLatin s) = lowerBasicLatin s"
proof -
  have "\<not> (0x41 \<le> c + 0x20 \<and> c + 0x20 \<le> 0x5A)" if "0x41 \<le> c" "c \<le> 0x5A" for c :: unit16
    using lower_unit_range [OF that] by (auto simp: word_le_nat_alt)
  then show ?thesis
    by (auto simp: lowerBasicLatin_def)
qed

lemma lowerBasicLatin_plain:
  assumes "plain s"
  shows "plain (lowerBasicLatin s)"
proof -
  have "\<not> isHamzaAlef (c + 0x20) \<and> c + 0x20 \<noteq> 0x0629 \<and> c + 0x20 \<noteq> 0x0649 \<and> \<not> isDiacritic (c + 0x20)"
    if "0x41 \<le> c" "c \<le> 0x5A" for c :: unit16
    using lower_unit_range [OF that] small_unit_plain [of "c + 0x20"] by blast
  with assms show ?thesis
    unfolding plain_def lowerBasicLatin_def list_all_iff by auto
qed

text \<open>
  Claim C6. The normalizer is idempotent, and the two spellings of Ahmad, with and
  without hamza on the alef, have the same normal form. Of the lowering of case it takes
  what holds of the built-in of the platform: it is idempotent, and it brings none of the
  replaced Arabic code units into a string that has none.
\<close>

theorem normalize_idempotent:
  assumes "\<forall>s. lc (lc s) = lc s" and "\<forall>s. plain s \<longrightarrow> plain (lc s)"
  shows "normalizeArabic lc (normalizeArabic lc x) = normalizeArabic lc x \<and>
         normalizeArabic lc ahmadHamza = normalizeArabic lc ahmadBare"
proof -
  have n: "normalizeArabic lc y = lc (replacements y)" for y
    by (simp add: normalizeArabic_def replacements_def)
  have "plain (lc (replacements x))"
    using assms(2) plain_replacements by blast
  then have "replacements (lc (replacements x)) = lc (replacements x)"
    by (rule plain_replacements_id)
  then have "normalizeArabic lc (normalizeArabic lc x) = normalizeArabic lc x"
    using assms(1) by (simp add: n)
  moreover have "replacements ahmadHamza = replacements ahmadBare"
    by (simp add: replacements_def replaceClass_def ahmadHamza_def ahmadBare_def isHamzaAlef_def isDiacritic_def)
  ultimately show ?thesis by (simp add: n)
qed

theorem normalize_idempotent_witness:
  "lowerBasicLatin (lowerBasicLatin (ascii ''Ali'')) = lowerBasicLatin (ascii ''Ali'') \<and>
   plain (ascii ''Ali'') \<and> plain (lowerBasicLatin (ascii ''Ali'')) \<and>
   normalizeArabic lowerBasicLatin (normalizeArabic lowerBasicLatin (ahmadHamza @ ascii '' Ali''))
     = normalizeArabic lowerBasicLatin (ahmadHamza @ ascii '' Ali'') \<and>
   normalizeArabic lowerBasicLatin (ahmadHamza @ ascii '' Ali'') = ahmadBare @ ascii '' ali''"
proof -
  have h1: "\<forall>s. lowerBasicLatin (lowerBasicLatin s) = lowerBasicLatin s"
    by (simp add: lowerBasicLatin_idem)
  have h2: "\<forall>s. plain s \<longrightarrow> plain (lowerBasicLatin s)"
    by (simp add: lowerBasicLatin_plain)
  have p: "plain (ascii ''Ali'')"
    by (simp add: plain_def ascii_def isHamzaAlef_def isDiacritic_def)
  have v: "normalizeArabic lowerBasicLatin (ahmadHamza @ ascii '' Ali'') = ahmadBare @ ascii '' ali''"
    by (simp add: normalizeArabic_def replaceClass_def lowerBasicLatin_def ahmadHamza_def ahmadBare_def
        ascii_def isHamzaAlef_def isDiacritic_def)
  from normalize_idempotent [OF h1 h2, of "ahmadHamza @ ascii '' Ali''"] h1 h2 p v
  show ?thesis by blast
qed

section \<open>Properties of the feed extractor\<close>

lemma episodeOf_fields:
  "(fst (episodeOf lc ch rnd k c))\<lparr>idE := []\<rparr> = itemFields lc ch c"
  by (simp add: episodeOf_def itemFields_def Let_def)

lemma episodeOf_url: "url (fst (episodeOf lc ch rnd k c)) = enclosureUrl c"
  by (simp add: episodeOf_def Let_def)

lemma episodeOf_reciter:
  "reciter (fst (episodeOf lc ch rnd k c)) = sentinelReciter (snd (labelsBeforeSentinel lc (fullTitleOf c)))"
  by (simp add: episodeOf_def parseTitle_def Let_def)

lemma itemsLoop_None: "execItem s = None \<Longrightarrow> itemsLoop lc ch rnd s items k = items"
  by (subst itemsLoop.simps) (simp)

lemma itemsLoop_Some:
  "execItem s = Some (c, r) \<Longrightarrow>
     itemsLoop lc ch rnd s items k =
       itemsLoop lc ch rnd r
         (if url (fst (episodeOf lc ch rnd k c)) \<noteq> [] then items @ [fst (episodeOf lc ch rnd k c)]
          else items)
         (snd (episodeOf lc ch rnd k c))"
  by (subst itemsLoop.simps) (simp add: Let_def)

lemma itemContents_None: "execItem s = None \<Longrightarrow> itemContents s = []"
  by (subst itemContents.simps) (simp)

lemma itemContents_Some: "execItem s = Some (c, r) \<Longrightarrow> itemContents s = c # itemContents r"
  by (subst itemContents.simps) (simp)

lemma itemsLoop_fields:
  "map (\<lambda>e. e\<lparr>idE := []\<rparr>) (itemsLoop lc ch rnd s items k) =
     map (\<lambda>e. e\<lparr>idE := []\<rparr>) items @
     map (itemFields lc ch) (filter (\<lambda>c. enclosureUrl c \<noteq> []) (itemContents s))"
proof (induction lc ch rnd s items k rule: itemsLoop.induct)
  case (1 lc ch rnd s items k)
  show ?case
  proof (cases "execItem s")
    case None
    then show ?thesis by (simp add: itemsLoop_None itemContents_None)
  next
    case (Some a)
    obtain c r where a: "a = (c, r)" by (cases a)
    from Some a have ex: "execItem s = Some (c, r)" by simp
    let ?ek = "episodeOf lc ch rnd k c"
    let ?items = "if url (fst ?ek) \<noteq> [] then items @ [fst ?ek] else items"
    have step: "itemsLoop lc ch rnd s items k = itemsLoop lc ch rnd r ?items (snd ?ek)"
      by (rule itemsLoop_Some [OF ex])
    have cont: "itemContents s = c # itemContents r"
      by (rule itemContents_Some [OF ex])
    have acc: "map (\<lambda>e. e\<lparr>idE := []\<rparr>) ?items =
                 map (\<lambda>e. e\<lparr>idE := []\<rparr>) items @
                 map (itemFields lc ch) (filter (\<lambda>c. enclosureUrl c \<noteq> []) [c])"
      by (simp add: episodeOf_url episodeOf_fields)
    have "map (\<lambda>e. e\<lparr>idE := []\<rparr>) (itemsLoop lc ch rnd s items k) =
            map (\<lambda>e. e\<lparr>idE := []\<rparr>) ?items @
            map (itemFields lc ch) (filter (\<lambda>c. enclosureUrl c \<noteq> []) (itemContents r))"
      using "1.IH" [OF ex refl refl] by (simp only: step)
    also have "\<dots> = map (\<lambda>e. e\<lparr>idE := []\<rparr>) items @
            map (itemFields lc ch) (filter (\<lambda>c. enclosureUrl c \<noteq> []) ([c] @ itemContents r))"
      by (simp only: acc filter_append map_append append_assoc)
    finally show ?thesis
      by (simp only: cont append_Cons append_Nil)
  qed
qed

lemma itemsLoop_members:
  "e \<in> set (itemsLoop lc ch rnd s items k) \<Longrightarrow>
     e \<in> set items \<or> (\<exists>j c. e = fst (episodeOf lc ch rnd j c) \<and> enclosureUrl c \<noteq> [])"
proof (induction lc ch rnd s items k rule: itemsLoop.induct)
  case (1 lc ch rnd s items k)
  show ?case
  proof (cases "execItem s")
    case None
    with "1.prems" show ?thesis by (simp add: itemsLoop_None)
  next
    case (Some a)
    obtain c r where a: "a = (c, r)" by (cases a)
    from Some a have ex: "execItem s = Some (c, r)" by simp
    let ?ek = "episodeOf lc ch rnd k c"
    let ?items = "if url (fst ?ek) \<noteq> [] then items @ [fst ?ek] else items"
    from "1.prems" have "e \<in> set (itemsLoop lc ch rnd r ?items (snd ?ek))"
      by (simp only: itemsLoop_Some [OF ex])
    from "1.IH" [OF ex refl refl this]
    show ?thesis
      by (auto simp: episodeOf_url split: if_splits)
  qed
qed



lemmas parse_defs = parseTitle_def labelsBeforeSentinel_def
  titleParts_def markerLabels_def fallbackLabels_def sentinelReciter_def arabicSurahIndex_def
  englishSurahIndex_def trim_def isWhiteSpace_def isLineTerminator_def lowerBasicLatin_def
  surahMarkerAr_def unknownReciterAr_def generalRecitations_def Let_def

lemma exec_feedTwoItems:
  "execItem feedTwoItems = Some (itemNoEnclosure, ascii ''<item>'' @ itemUnknown @ ascii ''</item>'')"
  "execItem (ascii ''<item>'' @ itemUnknown @ ascii ''</item>'') = Some (itemUnknown, [])"
  "execItem [] = None"
  by (simp_all add: feedTwoItems_def itemNoEnclosure_def itemUnknown_def ascii_def dquote_def)

lemma labels_unknown:
  "labelsBeforeSentinel lowerBasicLatin (ascii ''Surah Y | Unknown'') = (ascii ''Surah Y'', ascii ''Unknown'')"
  by (simp add: parse_defs ascii_def)

lemma episode_itemNoEnclosure:
  "url (fst (episodeOf lowerBasicLatin [] sampleRandom 0 itemNoEnclosure)) = []"
  "snd (episodeOf lowerBasicLatin [] sampleRandom 0 itemNoEnclosure) = 1"
  by (simp_all add: episodeOf_def enclosureUrl_def Let_def itemNoEnclosure_def ascii_def dquote_def)

lemma episode_itemUnknown:
  "episodeOf lowerBasicLatin [] sampleRandom 1 itemUnknown = (episodeUnknown, 2)"
proof -
  have ft: "fullTitleOf itemUnknown = ascii ''Surah Y | Unknown''"
    by (simp add: fullTitleOf_def itemUnknown_def ascii_def dquote_def isLineTerminator_def)
  have pt: "parseTitle lowerBasicLatin (ascii ''Surah Y | Unknown'') = (ascii ''Surah Y'', generalRecitations)"
    by (simp add: parseTitle_def labels_unknown sentinelReciter_def)
  have eu: "enclosureUrl itemUnknown = ascii ''u.mp3''"
    by (simp add: enclosureUrl_def itemUnknown_def ascii_def dquote_def isLineTerminator_def)
  have gd: "matchGroup (ascii ''<guid'') guidTail itemUnknown = None"
    by (simp add: itemUnknown_def ascii_def dquote_def)
  have im: "itunesImage itemUnknown = None"
    by (simp add: itunesImage_def itemUnknown_def ascii_def dquote_def)
  have du: "durationOf itemUnknown = ascii ''00:00''"
    by (simp add: durationOf_def itemUnknown_def ascii_def dquote_def)
  have rn: "sampleRandom (Suc 0) = ascii ''0.77''"
    by (simp add: sampleRandom_def ascii_def)
  show ?thesis
    by (simp add: episodeOf_def ft pt eu gd im du rn episodeUnknown_def)
qed

lemma extract_feedTwoItems:
  "extractEpisodes lowerBasicLatin sampleRandom feedTwoItems = [episodeUnknown]"
proof -
  have "itunesImage feedTwoItems = None"
    by (simp add: itunesImage_def feedTwoItems_def itemNoEnclosure_def itemUnknown_def ascii_def dquote_def)
  then have "extractEpisodes lowerBasicLatin sampleRandom feedTwoItems =
      itemsLoop lowerBasicLatin [] sampleRandom feedTwoItems [] 0"
    by (simp add: extractEpisodes_def)
  also have "\<dots> = itemsLoop lowerBasicLatin [] sampleRandom (ascii ''<item>'' @ itemUnknown @ ascii ''</item>'') [] 1"
    by (simp only: itemsLoop_Some [OF exec_feedTwoItems(1)] episode_itemNoEnclosure) simp
  also have "\<dots> = itemsLoop lowerBasicLatin [] sampleRandom [] [episodeUnknown] 2"
    by (simp only: itemsLoop_Some [OF exec_feedTwoItems(2)] episode_itemUnknown fst_conv snd_conv)
       (simp add: episodeUnknown_def ascii_def)
  also have "\<dots> = [episodeUnknown]"
    by (rule itemsLoop_None) simp
  finally show ?thesis .
qed



lemma itemContents_feedTwoItems: "itemContents feedTwoItems = [itemNoEnclosure, itemUnknown]"
  by (simp only: itemContents_Some [OF exec_feedTwoItems(1)]
      itemContents_Some [OF exec_feedTwoItems(2)] itemContents_None [OF exec_feedTwoItems(3)])

lemma enclosureUrl_itemNoEnclosure: "enclosureUrl itemNoEnclosure = []"
  by (simp add: enclosureUrl_def itemNoEnclosure_def ascii_def dquote_def)

lemma execItem_feedNoItems: "execItem feedNoItems = None"
  by (simp add: feedNoItems_def ascii_def)

text \<open>
  Claim C3. On a feed text that was fetched, the episodes returned are, in the order of
  the feed, those of exactly the items whose enclosure URL is not empty; every field but
  the id (a random value when the item has no guid) is a function of the item alone and
  of the channel image, so an item that is dropped changes nothing in the others; and
  every episode returned has a URL that is not empty.
\<close>

theorem retained_items:
  "getPodcastEpisodes lc rnd (Response True (Some xmlText)) = Inr (extractEpisodes lc rnd xmlText) \<and>
   map (\<lambda>e. e\<lparr>idE := []\<rparr>) (extractEpisodes lc rnd xmlText) =
     map (itemFields lc (channelImageOf xmlText))
       (filter (\<lambda>c. enclosureUrl c \<noteq> []) (itemContents xmlText)) \<and>
   (\<forall>e\<in>set (extractEpisodes lc rnd xmlText). url e \<noteq> [])"
proof -
  have a: "getPodcastEpisodes lc rnd (Response True (Some xmlText)) = Inr (extractEpisodes lc rnd xmlText)"
    by (simp add: getPodcastEpisodes_def tryBlock_def)
  have b: "map (\<lambda>e. e\<lparr>idE := []\<rparr>) (extractEpisodes lc rnd xmlText) =
     map (itemFields lc (channelImageOf xmlText))
       (filter (\<lambda>c. enclosureUrl c \<noteq> []) (itemContents xmlText))"
    using itemsLoop_fields [of lc "channelImageOf xmlText" rnd xmlText "[]" 0]
    by (simp add: extractEpisodes_def channelImageOf_def)
  have c: "url e \<noteq> []" if "e \<in> set (extractEpisodes lc rnd xmlText)" for e
    using itemsLoop_members [of e lc "channelImageOf xmlText" rnd xmlText "[]" 0] that
    by (auto simp: extractEpisodes_def channelImageOf_def episodeOf_url)
  from a b c show ?thesis by blast
qed

theorem retained_items_witness:
  "itemContents feedTwoItems = [itemNoEnclosure, itemUnknown] \<and>
   enclosureUrl itemNoEnclosure = [] \<and>
   extractEpisodes lowerBasicLatin sampleRandom feedTwoItems = [episodeUnknown] \<and>
   url episodeUnknown \<noteq> []"
proof -
  from retained_items [of lowerBasicLatin sampleRandom feedTwoItems]
  have "\<forall>e\<in>set (extractEpisodes lowerBasicLatin sampleRandom feedTwoItems). url e \<noteq> []"
    by blast
  then have "url episodeUnknown \<noteq> []"
    by (simp add: extract_feedTwoItems)
  then show ?thesis
    by (simp add: extract_feedTwoItems itemContents_feedTwoItems enclosureUrl_itemNoEnclosure)
qed

lemma sentinelReciter_known:
  "sentinelReciter r \<noteq> [] \<and> sentinelReciter r \<noteq> unknownReciterAr \<and>
   sentinelReciter r \<noteq> ascii ''Unknown''"
  by (simp add: sentinelReciter_def generalRecitations_def unknownReciterAr_def ascii_def)

lemma getPodcastEpisodes_cases:
  "getPodcastEpisodes lc rnd res = Inr items \<Longrightarrow>
     items = [] \<or> (\<exists>xmlText. items = extractEpisodes lc rnd xmlText)"
  by (auto simp: getPodcastEpisodes_def tryBlock_def split: fetched.splits option.splits if_splits)

text \<open>
  Claim C4. The reciter of an episode that the extractor returns is never empty, never
  the Arabic "unknown reciter" literal and never \<open>Unknown\<close>; and the parser returns the
  sentinel in place of a reciter label that is empty or one of the two literals, and the
  label itself otherwise.
\<close>

theorem reciter_never_unknown:
  "(getPodcastEpisodes lc rnd res = Inr items \<and> e \<in> set items \<longrightarrow>
      reciter e \<noteq> [] \<and> reciter e \<noteq> unknownReciterAr \<and> reciter e \<noteq> ascii ''Unknown'') \<and>
   snd (parseTitle lc t) =
     (if snd (labelsBeforeSentinel lc t) = [] \<or>
         snd (labelsBeforeSentinel lc t) = unknownReciterAr \<or>
         snd (labelsBeforeSentinel lc t) = ascii ''Unknown''
      then generalRecitations else snd (labelsBeforeSentinel lc t))"
proof -
  have "reciter e \<noteq> [] \<and> reciter e \<noteq> unknownReciterAr \<and> reciter e \<noteq> ascii ''Unknown''"
    if "getPodcastEpisodes lc rnd res = Inr items" and "e \<in> set items"
  proof -
    from getPodcastEpisodes_cases [OF that(1)] that(2)
    obtain xmlText where "e \<in> set (extractEpisodes lc rnd xmlText)"
      by auto
    then obtain j c where "e = fst (episodeOf lc (channelImageOf xmlText) rnd j c)"
      using itemsLoop_members [of e lc "channelImageOf xmlText" rnd xmlText "[]" 0]
      by (auto simp: extractEpisodes_def channelImageOf_def)
    then show ?thesis
      by (simp only: episodeOf_reciter sentinelReciter_known simp_thms)
  qed
  moreover have "snd (parseTitle lc t) =
     (if snd (labelsBeforeSentinel lc t) = [] \<or>
         snd (labelsBeforeSentinel lc t) = unknownReciterAr \<or>
         snd (labelsBeforeSentinel lc t) = ascii ''Unknown''
      then generalRecitations else snd (labelsBeforeSentinel lc t))"
    by (simp add: parseTitle_def sentinelReciter_def Let_def)
  ultimately show ?thesis by blast
qed

theorem reciter_never_unknown_witness:
  "getPodcastEpisodes lowerBasicLatin sampleRandom (Response True (Some feedTwoItems)) =
     Inr [episodeUnknown] \<and>
   episodeUnknown \<in> set [episodeUnknown] \<and>
   snd (labelsBeforeSentinel lowerBasicLatin (ascii ''Surah Y | Unknown'')) = ascii ''Unknown'' \<and>
   reciter episodeUnknown = generalRecitations \<and>
   reciter episodeUnknown \<noteq> [] \<and> reciter episodeUnknown \<noteq> unknownReciterAr \<and>
   reciter episodeUnknown \<noteq> ascii ''Unknown''"
proof -
  have v: "getPodcastEpisodes lowerBasicLatin sampleRandom (Response True (Some feedTwoItems)) =
      Inr [episodeUnknown]"
    by (simp add: getPodcastEpisodes_def tryBlock_def extract_feedTwoItems)
  from reciter_never_unknown [of lowerBasicLatin sampleRandom "Response True (Some feedTwoItems)"
      "[episodeUnknown]" episodeUnknown] v
  have "reciter episodeUnknown \<noteq> [] \<and> reciter episodeUnknown \<noteq> unknownReciterAr \<and>
        reciter episodeUnknown \<noteq> ascii ''Unknown''"
    by simp
  moreover have "reciter episodeUnknown = generalRecitations"
    by (simp add: episodeUnknown_def)
  ultimately show ?thesis
    using v by (simp add: labels_unknown)
qed

text \<open>
  Claim C5. The function always returns a list to its caller and never an error: when
  the fetch is rejected, when the response is not a success, when the body cannot be
  read, and when the item pattern has no match in the feed text, the list is empty.
\<close>

theorem never_raises:
  "(\<exists>items. getPodcastEpisodes lc rnd res = Inr items) \<and>
   getPodcastEpisodes lc rnd FetchRejected = Inr [] \<and>
   getPodcastEpisodes lc rnd (Response False body) = Inr [] \<and>
   getPodcastEpisodes lc rnd (Response True None) = Inr [] \<and>
   (execItem xmlText = None \<longrightarrow>
      getPodcastEpisodes lc rnd (Response True (Some xmlText)) = Inr [])"
proof -
  have "\<exists>items. getPodcastEpisodes lc rnd res = Inr items"
    by (simp add: getPodcastEpisodes_def split: sum.splits)
  moreover have "getPodcastEpisodes lc rnd (Response True (Some xmlText)) = Inr []"
    if "execItem xmlText = None"
    using that by (simp add: getPodcastEpisodes_def tryBlock_def extractEpisodes_def itemsLoop_None)
  ultimately show ?thesis
    by (simp add: getPodcastEpisodes_def tryBlock_def)
qed

theorem never_raises_witness:
  "execItem feedNoItems = None \<and>
   getPodcastEpisodes lowerBasicLatin sampleRandom (Response True (Some feedNoItems)) = Inr []"
  using never_raises [of lowerBasicLatin sampleRandom "Response True (Some feedNoItems)" "None" feedNoItems]
    execItem_feedNoItems by blast

section \<open>The labels of the title parser\<close>

lemma split_not_Nil: "split sep s \<noteq> []"
  by (induction s) (auto split: list.splits)

lemma titleParts_not_Nil: "titleParts t \<noteq> []"
  by (simp add: titleParts_def split_not_Nil)

lemma markerLabels_reciter: "snd (markerLabels lc parts) = reciterByMarkers lc parts"
  by (simp add: markerLabels_def reciterByMarkers_def Let_def filterIndex_nths)

lemma markerLabels_surah:
  assumes "lc [] = []"
  shows "fst (markerLabels lc parts) = (case surahByMarkers lc parts of Some seg \<Rightarrow> seg | None \<Rightarrow> [])"
    and "surahByMarkers lc parts = Some seg \<Longrightarrow> seg \<noteq> []"
proof -
  let ?A = "\<lambda>p. str_includes p surahMarkerAr"
  let ?E = "\<lambda>p. str_includes (lc p) (ascii ''surah'')"
  have nA: "\<not> ?A []" by (simp add: surahMarkerAr_def)
  have nE: "\<not> ?E []" using assms by (simp add: ascii_def)
  have fA: "find ?A parts = Some s \<Longrightarrow> s \<noteq> []" for s
    using nA by (auto simp: find_Some_iff)
  have fE: "find ?E parts = Some s \<Longrightarrow> s \<noteq> []" for s
    using nE by (auto simp: find_Some_iff)
  show "surahByMarkers lc parts = Some seg \<Longrightarrow> seg \<noteq> []"
    using fA fE by (auto simp: surahByMarkers_def split: option.splits)
  show "fst (markerLabels lc parts) = (case surahByMarkers lc parts of Some seg \<Rightarrow> seg | None \<Rightarrow> [])"
  proof (cases "arabicSurahIndex parts")
    case None
    then have a: "find ?A parts = None"
      by (simp add: find_findIndex arabicSurahIndex_def)
    show ?thesis
    proof (cases "englishSurahIndex lc parts")
      case None2: None
      then have "find ?E parts = None"
        by (simp add: find_findIndex englishSurahIndex_def)
      with a None None2 show ?thesis
        by (simp add: markerLabels_def surahByMarkers_def Let_def)
    next
      case (Some j)
      then have "find ?E parts = Some (parts ! j)"
        by (simp add: find_findIndex englishSurahIndex_def)
      with a None Some show ?thesis
        by (simp add: markerLabels_def surahByMarkers_def Let_def)
    qed
  next
    case (Some i)
    then have a: "find ?A parts = Some (parts ! i)"
      by (simp add: find_findIndex arabicSurahIndex_def)
    from fA [OF a] have "parts ! i \<noteq> []" .
    with a Some show ?thesis
      by (simp add: markerLabels_def surahByMarkers_def Let_def split: option.splits)
  qed
qed

text \<open>
  Claim C1, as amended. The chapter label is the first segment with the Arabic marker,
  or else the first segment whose lower-case form has the English marker. When there is
  such a segment, the reciter label before the sentinel substitution is the trimmed
  space-join of the segments at the other indices. When there is none, the fallback
  applies: the chapter label is the first segment and the reciter label is the space-join
  of the remaining segments, untrimmed. The lowering of case is taken to map the empty
  string to itself, as the built-in does.
\<close>

theorem labels_by_markers:
  assumes "lc [] = []"
  shows "fst (parseTitle lc t) = fst (labelsBeforeSentinel lc t) \<and>
         (surahByMarkers lc (titleParts t) = Some seg \<longrightarrow>
            labelsBeforeSentinel lc t = (seg, reciterByMarkers lc (titleParts t))) \<and>
         (surahByMarkers lc (titleParts t) = None \<longrightarrow>
            labelsBeforeSentinel lc t =
              (hd (titleParts t), join (ascii '' '') (tl (titleParts t))))"
proof -
  let ?parts = "titleParts t"
  have ne: "?parts \<noteq> []" by (rule titleParts_not_Nil)
  have m: "markerLabels lc ?parts = (fst (markerLabels lc ?parts), reciterByMarkers lc ?parts)"
    by (simp add: markerLabels_reciter [symmetric])
  have 1: "labelsBeforeSentinel lc t = (seg, reciterByMarkers lc ?parts)"
    if s: "surahByMarkers lc ?parts = Some seg"
  proof -
    from markerLabels_surah(1) [where lc = lc and parts = ?parts, OF assms]
      markerLabels_surah(2) [where lc = lc and parts = ?parts and seg = seg, OF assms s] s
    have "fst (markerLabels lc ?parts) = seg" and "seg \<noteq> []"
      by simp_all
    with m show ?thesis
      by (simp add: labelsBeforeSentinel_def fallbackLabels_def Let_def)
  qed
  have 2: "labelsBeforeSentinel lc t = (hd ?parts, join (ascii '' '') (tl ?parts))"
    if s: "surahByMarkers lc ?parts = None"
  proof -
    from markerLabels_surah(1) [where lc = lc and parts = ?parts, OF assms] s
    have "fst (markerLabels lc ?parts) = []"
      by simp
    with ne show ?thesis
      by (simp add: labelsBeforeSentinel_def fallbackLabels_def Let_def hd_conv_nth drop_Suc)
  qed
  have 0: "fst (parseTitle lc t) = fst (labelsBeforeSentinel lc t)"
    by (simp add: parseTitle_def Let_def)
  from 0 1 2 show ?thesis by blast
qed

lemma parts_abc_def: "titleParts (ascii ''abc | def'') = [ascii ''abc'', ascii ''def'']"
  by (simp add: titleParts_def ascii_def trim_def isWhiteSpace_def isLineTerminator_def)

lemma parts_baqarah:
  "titleParts (ascii ''Surah Al-Baqarah - Sheikh Ahmad'') = [ascii ''Surah Al-Baqarah'', ascii ''Sheikh Ahmad'']"
  by (simp add: titleParts_def ascii_def trim_def isWhiteSpace_def isLineTerminator_def)

text \<open>
  The title \<open>abc | def\<close> has no marker. Claim C1 as stated makes its reciter label the
  trimmed join of both segments, \<open>abc def\<close>; the fallback of the parser makes it
  \<open>def\<close>.
\<close>

theorem fallback_reciter_counterexample:
  "arabicSurahIndex (titleParts (ascii ''abc | def'')) = None \<and>
   englishSurahIndex lowerBasicLatin (titleParts (ascii ''abc | def'')) = None \<and>
   reciterByMarkers lowerBasicLatin (titleParts (ascii ''abc | def'')) = ascii ''abc def'' \<and>
   snd (labelsBeforeSentinel lowerBasicLatin (ascii ''abc | def'')) = ascii ''def'' \<and>
   snd (labelsBeforeSentinel lowerBasicLatin (ascii ''abc | def'')) \<noteq>
     reciterByMarkers lowerBasicLatin (titleParts (ascii ''abc | def''))"
proof -
  have a: "arabicSurahIndex (titleParts (ascii ''abc | def'')) = None"
    by (simp only: parts_abc_def) (simp add: arabicSurahIndex_def surahMarkerAr_def ascii_def)
  have e: "englishSurahIndex lowerBasicLatin (titleParts (ascii ''abc | def'')) = None"
    by (simp only: parts_abc_def) (simp add: englishSurahIndex_def lowerBasicLatin_def ascii_def)
  have r: "reciterByMarkers lowerBasicLatin (titleParts (ascii ''abc | def'')) = ascii ''abc def''"
    unfolding reciterByMarkers_def a e
    by (simp only: parts_abc_def) (simp add: ascii_def trim_def isWhiteSpace_def isLineTerminator_def)
  have l: "snd (labelsBeforeSentinel lowerBasicLatin (ascii ''abc | def'')) = ascii ''def''"
    using a e
    by (simp add: labelsBeforeSentinel_def markerLabels_def fallbackLabels_def Let_def parts_abc_def)
  have "ascii ''def'' \<noteq> ascii ''abc def''"
    by (simp add: ascii_def)
  with a e r l show ?thesis by simp
qed

theorem labels_by_markers_witness:
  "lowerBasicLatin [] = [] \<and>
   surahByMarkers lowerBasicLatin (titleParts (ascii ''Surah Al-Baqarah - Sheikh Ahmad'')) =
     Some (ascii ''Surah Al-Baqarah'') \<and>
   labelsBeforeSentinel lowerBasicLatin (ascii ''Surah Al-Baqarah - Sheikh Ahmad'') =
     (ascii ''Surah Al-Baqarah'', ascii ''Sheikh Ahmad'') \<and>
   surahByMarkers lowerBasicLatin (titleParts (ascii ''abc | def'')) = None \<and>
   labelsBeforeSentinel lowerBasicLatin (ascii ''abc | def'') = (ascii ''abc'', ascii ''def'')"
proof -
  have h: "lowerBasicLatin [] = []"
    by (simp add: lowerBasicLatin_def)
  have s1: "surahByMarkers lowerBasicLatin (titleParts (ascii ''Surah Al-Baqarah - Sheikh Ahmad'')) =
      Some (ascii ''Surah Al-Baqarah'')"
    by (simp only: parts_baqarah) (simp add: surahByMarkers_def surahMarkerAr_def lowerBasicLatin_def ascii_def)
  have a1: "arabicSurahIndex (titleParts (ascii ''Surah Al-Baqarah - Sheikh Ahmad'')) = None"
    by (simp only: parts_baqarah) (simp add: arabicSurahIndex_def surahMarkerAr_def ascii_def)
  have e1: "englishSurahIndex lowerBasicLatin (titleParts (ascii ''Surah Al-Baqarah - Sheikh Ahmad'')) = Some 0"
    by (simp only: parts_baqarah) (simp add: englishSurahIndex_def lowerBasicLatin_def ascii_def)
  have r1: "reciterByMarkers lowerBasicLatin (titleParts (ascii ''Surah Al-Baqarah - Sheikh Ahmad'')) =
      ascii ''Sheikh Ahmad''"
    unfolding reciterByMarkers_def a1 e1
    by (simp only: parts_baqarah) (simp add: ascii_def trim_def isWhiteSpace_def isLineTerminator_def)
  have s2: "surahByMarkers lowerBasicLatin (titleParts (ascii ''abc | def'')) = None"
    by (simp only: parts_abc_def) (simp add: surahByMarkers_def surahMarkerAr_def lowerBasicLatin_def ascii_def)
  have j2: "join (ascii '' '') (tl (titleParts (ascii ''abc | def''))) = ascii ''def''"
    by (simp add: parts_abc_def)
  have h2: "hd (titleParts (ascii ''abc | def'')) = ascii ''abc''"
    by (simp add: parts_abc_def)
  from labels_by_markers [where lc = lowerBasicLatin and t = "ascii ''Surah Al-Baqarah - Sheikh Ahmad''"
      and seg = "ascii ''Surah Al-Baqarah''", OF h] s1 r1
  have "labelsBeforeSentinel lowerBasicLatin (ascii ''Surah Al-Baqarah - Sheikh Ahmad'') =
     (ascii ''Surah Al-Baqarah'', ascii ''Sheikh Ahmad'')"
    by simp
  moreover from labels_by_markers [where lc = lowerBasicLatin and t = "ascii ''abc | def''", OF h] s2 j2 h2
  have "labelsBeforeSentinel lowerBasicLatin (ascii ''abc | def'') = (ascii ''abc'', ascii ''def'')"
    by simp
  ultimately show ?thesis
    using h s1 s2 by simp
qed

section \<open>Properties of the episode filter\<close>

lemma str_includes_sublist: "str_includes s pat \<longleftrightarrow> sublist pat s"
  by (induction s) (auto simp: sublist_Cons_right)

lemma splitWhere_eq: "splitWhere (\<lambda>c. c = sep) s = split sep s"
  by (induction s) auto

lemma queryTerms_spaceTerms: "queryTerms lc q = spaceTerms (normalizeArabic lc q)"
  by (simp add: queryTerms_def spaceTerms_def splitWhere_eq)

lemma replacements_append: "replacements (a @ b) = replacements a @ replacements b"
  by (simp add: replacements_def replaceClass_def)

lemma replacements_space: "replacements (ascii '' '') = ascii '' ''"
  by (simp add: replacements_def replaceClass_def ascii_def isHamzaAlef_def isDiacritic_def)

lemma normalizeArabic_replacements: "normalizeArabic lc s = lc (replacements s)"
  by (simp add: normalizeArabic_def replacements_def)

lemma matchesTerms_hasAllTerms:
  assumes "\<forall>a b. lc (a @ ascii '' '' @ b) = lc a @ ascii '' '' @ lc b"
  shows "matchesTerms lc terms e = hasAllTerms lc terms e"
  using assms
  by (simp add: matchesTerms_def hasAllTerms_def normalizeArabic_replacements
      replacements_append replacements_space str_includes_sublist)

text \<open>
  Claim C2, as amended. For a query that is not empty, the array that the filter returns
  holds, sorted by rank, exactly the episodes left by the reciter selection for which
  every term of the query occurs as a contiguous run in the normal form of the chapter
  label, a space and the reciter; the terms are the non-empty runs of the normalized
  query between spaces U+0020. The lowering of case is taken to work on both sides of a
  space independently, as the built-in does.
\<close>

theorem filter_by_query:
  assumes "surahSearch \<noteq> []"
    and "\<forall>a b. lc (a @ ascii '' '' @ b) = lc a @ ascii '' '' @ lc b"
  shows "snd (filteredEpisodes lc ord selectedReciter surahSearch h episodes) !
           fst (filteredEpisodes lc ord selectedReciter surahSearch h episodes) =
         sort_key (\<lambda>e. ord (surah e))
           (filter (keptBySpaceTerms lc surahSearch) (selectedEpisodes selectedReciter (h ! episodes)))"
proof -
  have m: "matchesTerms lc (queryTerms lc surahSearch) = keptBySpaceTerms lc surahSearch"
    using matchesTerms_hasAllTerms [OF assms(2)]
    by (simp add: fun_eq_iff keptBySpaceTerms_def queryTerms_spaceTerms)
  show ?thesis
  proof (cases "selectedReciter = ascii ''All''")
    case True
    with assms(1) show ?thesis
      by (simp add: filteredEpisodes_def Let_def m selectedEpisodes_def newArray_def)
  next
    case False
    with assms(1) show ?thesis
      by (simp add: filteredEpisodes_def Let_def m selectedEpisodes_def newArray_def nth_append)
  qed
qed

text \<open>
  With a reciter selected or a query given, \<open>filter\<close> has allocated a new array before
  \<open>sort\<close> runs, and the input array stays as it was; otherwise it is sorted in place.
\<close>

lemma filteredEpisodes_copy_frame:
  assumes "selectedReciter \<noteq> ascii ''All'' \<or> surahSearch \<noteq> []" and "episodes < length h"
  shows "snd (filteredEpisodes lc ord selectedReciter surahSearch h episodes) ! episodes = h ! episodes"
  using assms
  by (auto simp: filteredEpisodes_def Let_def newArray_def nth_append)

lemma filteredEpisodes_in_place:
  assumes "episodes < length h"
  shows "snd (filteredEpisodes lc ord (ascii ''All'') [] h episodes) ! episodes =
           sort_key (\<lambda>e. ord (surah e)) (h ! episodes)"
  using assms
  by (simp add: filteredEpisodes_def Let_def)


lemma lowerBasicLatin_space:
  "\<forall>a b. lowerBasicLatin (a @ ascii '' '' @ b) = lowerBasicLatin a @ ascii '' '' @ lowerBasicLatin b"
  by (simp add: lowerBasicLatin_def ascii_def)

lemmas filter_eval = filteredEpisodes_def newArray_def queryTerms_def matchesTerms_def
  normalizeArabic_def replaceClass_def lowerBasicLatin_def isHamzaAlef_def isDiacritic_def
  Let_def ascii_def

text \<open>
  The query of a letter, a tab and a letter. Claim C2 as stated splits it at the tab
  into two terms, both of which the episode has, and keeps the episode; the filter has
  the single term with the tab in it and returns an empty array.
\<close>

theorem tab_query_counterexample:
  "keptAsStated lowerBasicLatin tabQuery episodeAb \<and>
   fst (filteredEpisodes lowerBasicLatin twoSurahOrder (ascii ''All'') tabQuery [[episodeAb]] 0) = 1 \<and>
   snd (filteredEpisodes lowerBasicLatin twoSurahOrder (ascii ''All'') tabQuery [[episodeAb]] 0) ! 1 = []"
proof -
  have "keptAsStated lowerBasicLatin tabQuery episodeAb"
    by (simp add: keptAsStated_def hasAllTerms_def whitespaceTerms_def str_includes_sublist [symmetric]
        tabQuery_def episodeAb_def isWhiteSpace_def isLineTerminator_def
        normalizeArabic_def replaceClass_def lowerBasicLatin_def isHamzaAlef_def isDiacritic_def ascii_def)
  moreover have "filteredEpisodes lowerBasicLatin twoSurahOrder (ascii ''All'') tabQuery [[episodeAb]] 0 =
      (1, [[episodeAb], []])"
    by (simp add: filter_eval tabQuery_def episodeAb_def)
  ultimately show ?thesis by simp
qed

lemma filtered_baqarah:
  "filteredEpisodes lowerBasicLatin twoSurahOrder (ascii ''All'') baqarahQuery
      [[episodeBaqarah, episodeFatiha]] 0 =
     (1, [[episodeBaqarah, episodeFatiha], [episodeBaqarah]])"
  by (simp add: filter_eval baqarahQuery_def episodeBaqarah_def episodeFatiha_def surahBaqarah_def
      surahFatiha_def surahMarkerAr_def generalRecitations_def)

theorem filter_by_query_witness:
  "baqarahQuery \<noteq> [] \<and>
   lowerBasicLatin (ascii ''a'' @ ascii '' '' @ ascii ''B'') = ascii ''a'' @ ascii '' '' @ ascii ''b'' \<and>
   snd (filteredEpisodes lowerBasicLatin twoSurahOrder (ascii ''All'') baqarahQuery
          [[episodeBaqarah, episodeFatiha]] 0) !
     fst (filteredEpisodes lowerBasicLatin twoSurahOrder (ascii ''All'') baqarahQuery
          [[episodeBaqarah, episodeFatiha]] 0) = [episodeBaqarah] \<and>
   sort_key (\<lambda>e. twoSurahOrder (surah e))
     (filter (keptBySpaceTerms lowerBasicLatin baqarahQuery)
        (selectedEpisodes (ascii ''All'') [episodeBaqarah, episodeFatiha])) = [episodeBaqarah]"
proof -
  have q: "baqarahQuery \<noteq> []"
    by (simp add: baqarahQuery_def)
  have l: "lowerBasicLatin (ascii ''a'' @ ascii '' '' @ ascii ''B'') = ascii ''a'' @ ascii '' '' @ ascii ''b''"
    by (simp add: lowerBasicLatin_def ascii_def)
  have v: "snd (filteredEpisodes lowerBasicLatin twoSurahOrder (ascii ''All'') baqarahQuery
          [[episodeBaqarah, episodeFatiha]] 0) !
     fst (filteredEpisodes lowerBasicLatin twoSurahOrder (ascii ''All'') baqarahQuery
          [[episodeBaqarah, episodeFatiha]] 0) = [episodeBaqarah]"
    by (simp add: filtered_baqarah)
  from filter_by_query [where lc = lowerBasicLatin and surahSearch = baqarahQuery
      and ord = twoSurahOrder and selectedReciter = "ascii ''All''"
      and h = "[[episodeBaqarah, episodeFatiha]]" and episodes = 0, OF q lowerBasicLatin_space] v
  have "sort_key (\<lambda>e. twoSurahOrder (surah e))
     (filter (keptBySpaceTerms lowerBasicLatin baqarahQuery)
        (selectedEpisodes (ascii ''All'') [episodeBaqarah, episodeFatiha])) = [episodeBaqarah]"
    by simp
  with q l v show ?thesis by simp
qed

text \<open>
  Claim C8. With the selection \<open>All\<close> and an empty query the variable \<open>result\<close> still
  holds the address of the input array when \<open>sort\<close> runs: the input array of the second
  chapter followed by the first is afterwards the first followed by the second.
\<close>

theorem sort_mutates_input:
  "fst (filteredEpisodes lowerBasicLatin twoSurahOrder (ascii ''All'') []
          [[episodeBaqarah, episodeFatiha]] 0) = 0 \<and>
   snd (filteredEpisodes lowerBasicLatin twoSurahOrder (ascii ''All'') []
          [[episodeBaqarah, episodeFatiha]] 0) ! 0 = [episodeFatiha, episodeBaqarah] \<and>
   [episodeFatiha, episodeBaqarah] \<noteq> [episodeBaqarah, episodeFatiha]"
  by (simp add: filteredEpisodes_def Let_def twoSurahOrder_def episodeBaqarah_def episodeFatiha_def
      surahBaqarah_def surahFatiha_def surahMarkerAr_def ascii_def)

end
